theory Spec2Isabelle
  imports Complex_Main
begin

section \<open>The frame loop of GameScene.tsx\<close>

text \<open>
  The model follows \<^verbatim>\<open>src/components/GameScene.tsx\<close> (the first \<^verbatim>\<open>useFrame\<close>
  callback, lines 63 to 206) and the position lookup of \<^verbatim>\<open>src/components/Note.tsx\<close>.

  JavaScript numbers are taken as exact reals: every threshold comparison of the source is
  kept as it is written, rounding of doubles, infinities and NaN produced by arithmetic are
  not modelled. The one NaN that the source can produce from well-formed numbers, a
  coordinate table read out of range, is modelled as a missing value.

  Note objects are shared between the chart (\<^verbatim>\<open>notesState\<close>) and the list of active notes
  (\<^verbatim>\<open>activeNotesRef\<close>). The model keeps the objects in \<open>notesState\<close> and lets the active
  list hold their chart positions, so that a write through an active entry is a write to the
  chart entry, as in the source. The chart is taken to hold each object once.

  The callbacks \<^verbatim>\<open>onNoteHit\<close>, \<^verbatim>\<open>onNoteMiss\<close> and \<^verbatim>\<open>onSongEnd\<close> belong to the host: a call
  is recorded as an event, in the order of the calls. What the frame callback writes to the
  lights and to the camera position is never read back by it and is left out; the shake
  intensity, which it does read back, is part of the state.
\<close>

subsection \<open>Vectors (the three.js operations the loop calls)\<close>

record Vector3 =
  vx :: real
  vy :: real
  vz :: real

definition distanceTo :: "Vector3 \<Rightarrow> Vector3 \<Rightarrow> real" where
  "distanceTo a b =
     sqrt ((vx a - vx b) * (vx a - vx b) + (vy a - vy b) * (vy a - vy b)
           + (vz a - vz b) * (vz a - vz b))"

definition vlength :: "Vector3 \<Rightarrow> real" where
  "vlength a = sqrt (vx a * vx a + vy a * vy a + vz a * vz a)"

definition normalize :: "Vector3 \<Rightarrow> Vector3" where
  \<comment> \<open>three.js divides by \<^verbatim>\<open>length() || 1\<close>\<close>
  "normalize a =
     (let l = (if vlength a = 0 then 1 else vlength a)
      in \<lparr>vx = vx a / l, vy = vy a / l, vz = vz a / l\<rparr>)"

definition dot :: "Vector3 \<Rightarrow> Vector3 \<Rightarrow> real" where
  "dot a b = vx a * vx b + vy a * vy b + vz a * vz b"

definition lerp :: "real \<Rightarrow> real \<Rightarrow> real \<Rightarrow> real" where
  "lerp x y t = (1 - t) * x + t * y"

subsection \<open>Data of \<^verbatim>\<open>../types\<close> and \<^verbatim>\<open>../constants\<close>\<close>

text \<open>
  Modelled from the spec: the enumerations of \<^verbatim>\<open>../types\<close> are not among the source
  files. The accuracy grade is the ordered enumeration BAD, GOOD, PERFECT; the cut direction
  is a direction or the wildcard ANY; of the status values only PLAYING is tested by the loop.
\<close>

datatype HitAccuracy = BAD | GOOD | PERFECT

datatype CutDirection = UP | DOWN | LEFT | RIGHT | ANY

datatype GameStatus = NOT_STARTED | PLAYING | PAUSED | ENDED

datatype HandType = Left | Right

fun grade_rank :: "HitAccuracy \<Rightarrow> nat" where
  "grade_rank BAD = 0"
| "grade_rank GOOD = 1"
| "grade_rank PERFECT = 2"

record NoteData =
  note_id :: string
  time :: real
  lineIndex :: int
  lineLayer :: int
  note_type :: HandType
  cutDirection :: CutDirection
  hit :: bool
  missed :: bool
  hitTime :: "real option"
  accuracy :: "HitAccuracy option"

text \<open>
  The constants of \<^verbatim>\<open>../constants\<close> are not among the source files either: they are a
  parameter of every definition below.
\<close>

record constants =
  PLAYER_Z :: real
  SPAWN_Z :: real
  MISS_Z :: real
  NOTE_SPEED :: real
  LANE_X_POSITIONS :: "real list"
  LAYER_Y_POSITIONS :: "real list"
  DIRECTION_VECTORS :: "CutDirection \<Rightarrow> Vector3"

record HandPositions =
  left :: "Vector3 option"
  right :: "Vector3 option"
  leftVelocity :: Vector3
  rightVelocity :: Vector3

record audio =
  currentTime :: real
  ended :: bool

text \<open>What one call of the frame callback reads from outside the component.\<close>

record frame =
  gameStatus :: GameStatus
  audioRef :: "audio option"
  handPositionsRef :: HandPositions
  delta :: real
  cameraRef :: bool

text \<open>What the component keeps between frames.\<close>

record scene =
  notesState :: "NoteData list"
  activeNotes :: "nat list"
  nextNoteIndex :: nat
  shakeIntensity :: real
  currentTimeState :: real

datatype event = NoteHit nat HitAccuracy | NoteMiss nat | SongEnd

definition initial :: "NoteData list \<Rightarrow> scene" where
  "initial chart =
     \<lparr>notesState = chart, activeNotes = [], nextNoteIndex = 0, shakeIntensity = 0,
      currentTimeState = 0\<rparr>"

subsection \<open>Spawning (lines 108 to 120)\<close>

definition spawnAheadTime :: "constants \<Rightarrow> real" where
  "spawnAheadTime c = \<bar>SPAWN_Z c - PLAYER_Z c\<bar> / NOTE_SPEED c"

definition due :: "constants \<Rightarrow> real \<Rightarrow> NoteData \<Rightarrow> bool" where
  "due c t nextNote \<longleftrightarrow> time nextNote - spawnAheadTime c \<le> t"

function spawn_loop :: "constants \<Rightarrow> real \<Rightarrow> scene \<Rightarrow> scene" where
  "spawn_loop c t s =
     (if nextNoteIndex s < length (notesState s) then
        (if due c t (notesState s ! nextNoteIndex s) then
           spawn_loop c t
             (s\<lparr>activeNotes := activeNotes s @ [nextNoteIndex s],
                nextNoteIndex := Suc (nextNoteIndex s)\<rparr>)
         else s)
      else s)"
  by pat_completeness auto
termination
  by (relation "measure (\<lambda>(c, t, s). length (notesState s) - nextNoteIndex s)") auto

subsection \<open>Projection and coordinate tables (lines 129 to 131, 148 to 152)\<close>

definition currentZ_of :: "constants \<Rightarrow> real \<Rightarrow> NoteData \<Rightarrow> real" where
  "currentZ_of c t note = PLAYER_Z c - ((time note - t) * NOTE_SPEED c)"


definition table_at :: "real list \<Rightarrow> int \<Rightarrow> real option" where
  \<comment> \<open>a JavaScript array read: \<^verbatim>\<open>undefined\<close> outside the array\<close>
  "table_at xs i = (if 0 \<le> i \<and> i < int (length xs) then Some (xs ! nat i) else None)"

definition notePos_of :: "constants \<Rightarrow> NoteData \<Rightarrow> real \<Rightarrow> Vector3 option" where
  "notePos_of c note z =
     (case table_at (LANE_X_POSITIONS c) (lineIndex note) of
        None \<Rightarrow> None
      | Some x \<Rightarrow>
          (case table_at (LAYER_Y_POSITIONS c) (lineLayer note) of
             None \<Rightarrow> None
           | Some y \<Rightarrow> Some \<lparr>vx = x, vy = y, vz = z\<rparr>))"

definition render_position :: "constants \<Rightarrow> NoteData \<Rightarrow> real \<Rightarrow> Vector3 option" where
  \<comment> \<open>Note.tsx, lines 182 to 188\<close>
  "render_position c data z =
     (case table_at (LANE_X_POSITIONS c) (lineIndex data) of
        None \<Rightarrow> None
      | Some x \<Rightarrow>
          (case table_at (LAYER_Y_POSITIONS c) (lineLayer data) of
             None \<Rightarrow> None
           | Some y \<Rightarrow> Some \<lparr>vx = x, vy = y, vz = z\<rparr>))"

definition touching :: "Vector3 \<Rightarrow> Vector3 option \<Rightarrow> bool" where
  \<comment> \<open>\<^verbatim>\<open>handPos.distanceTo(notePos) < 1.2\<close>; with an undefined coordinate the distance is
      NaN and the comparison is false\<close>
  "touching handPos notePos =
     (case notePos of None \<Rightarrow> False | Some p \<Rightarrow> distanceTo handPos p < 1.2)"

subsection \<open>Deciding one note (lines 127 to 193)\<close>

definition in_collision_window :: "constants \<Rightarrow> real \<Rightarrow> bool" where
  "in_collision_window c currentZ \<longleftrightarrow>
     currentZ > PLAYER_Z c - 2.0 \<and> currentZ < PLAYER_Z c + 1.5"

definition angleScore_of :: "constants \<Rightarrow> NoteData \<Rightarrow> Vector3 \<Rightarrow> real" where
  "angleScore_of c note handVel =
     (if cutDirection note \<noteq> ANY
      then dot (normalize handVel) (DIRECTION_VECTORS c (cutDirection note))
      else 1.0)"

definition grade :: "real \<Rightarrow> real \<Rightarrow> HitAccuracy" where
  "grade distanceToPerfect angleScore =
     (if distanceToPerfect < 0.5 \<and> angleScore > 0.5 then PERFECT
      else if distanceToPerfect < 1.0 \<and> angleScore > 0.2 then GOOD
      else BAD)"

text \<open>
  The body of the second loop either leaves the note alone (each \<^verbatim>\<open>continue\<close> and each
  failed \<^verbatim>\<open>if\<close>), marks it missed, or marks it hit with a grade.
\<close>

datatype outcome = Skip | Miss | Hit HitAccuracy

definition decide :: "constants \<Rightarrow> real \<Rightarrow> HandPositions \<Rightarrow> NoteData \<Rightarrow> outcome" where
  "decide c t hands note =
     (if hit note \<or> missed note then Skip
      else
        let currentZ = currentZ_of c t note in
        if currentZ > MISS_Z c then Miss
        else if in_collision_window c currentZ then
          (let handPos = (if note_type note = Left then left hands else right hands);
               handVel = (if note_type note = Left then leftVelocity hands
                          else rightVelocity hands)
           in case handPos of
                None \<Rightarrow> Skip
              | Some hp \<Rightarrow>
                  if touching hp (notePos_of c note currentZ) then
                    (let speed = vlength handVel in
                     if speed < 0.5 then Skip
                     else
                       let angleScore = angleScore_of c note handVel in
                       if angleScore > 0.1
                       then Hit (grade \<bar>currentZ - PLAYER_Z c\<bar> angleScore)
                       else Skip)
                  else Skip)
        else Skip)"

subsection \<open>Applying the decision (lines 135 to 137, 195 to 200, 54 to 61)\<close>

fun mark :: "real \<Rightarrow> outcome \<Rightarrow> NoteData \<Rightarrow> NoteData" where
  "mark t Skip note = note"
| "mark t Miss note = note\<lparr>missed := True\<rparr>"
| "mark t (Hit a) note = note\<lparr>hit := True, hitTime := Some t, accuracy := Some a\<rparr>"

fun emitted :: "nat \<Rightarrow> outcome \<Rightarrow> event list" where
  "emitted k Skip = []"
| "emitted k Miss = [NoteMiss k]"
| "emitted k (Hit a) = [NoteHit k a]"

definition splice1 :: "nat \<Rightarrow> 'a list \<Rightarrow> 'a list" where
  \<comment> \<open>\<^verbatim>\<open>splice(i, 1)\<close>\<close>
  "splice1 i xs = take i xs @ drop (Suc i) xs"

fun handleHit_shake :: "HitAccuracy \<Rightarrow> real" where
  "handleHit_shake PERFECT = 0.4"
| "handleHit_shake GOOD = 0.2"
| "handleHit_shake BAD = 0.1"

definition collide_note ::
  "constants \<Rightarrow> real \<Rightarrow> HandPositions \<Rightarrow> nat \<Rightarrow> scene \<times> event list \<Rightarrow> scene \<times> event list"
where
  "collide_note c t hands i se =
     (let s = fst se;
          k = activeNotes s ! i;
          note = notesState s ! k;
          d = decide c t hands note
      in case d of
           Skip \<Rightarrow> se
         | Miss \<Rightarrow>
             (s\<lparr>notesState := (notesState s)[k := mark t d note],
                activeNotes := splice1 i (activeNotes s)\<rparr>,
              snd se @ emitted k d)
         | Hit a \<Rightarrow>
             (s\<lparr>notesState := (notesState s)[k := mark t d note],
                activeNotes := splice1 i (activeNotes s),
                shakeIntensity := handleHit_shake a\<rparr>,
              snd se @ emitted k d))"

text \<open>The loop runs \<open>i\<close> from the last position of the active list down to 0.\<close>

fun collide_loop ::
  "constants \<Rightarrow> real \<Rightarrow> HandPositions \<Rightarrow> nat \<Rightarrow> scene \<times> event list \<Rightarrow> scene \<times> event list"
where
  "collide_loop c t hands 0 se = se"
| "collide_loop c t hands (Suc i) se = collide_loop c t hands i (collide_note c t hands i se)"

subsection \<open>The frame callback (lines 63 to 206)\<close>

definition shake_step :: "frame \<Rightarrow> scene \<Rightarrow> scene" where
  "shake_step f s =
     (if shakeIntensity s > 0 \<and> cameraRef f then
        (let si = lerp (shakeIntensity s) 0 (10 * delta f)
         in s\<lparr>shakeIntensity := (if si < 0.01 then 0 else si)\<rparr>)
      else s)"

definition useFrame :: "constants \<Rightarrow> frame \<Rightarrow> scene \<Rightarrow> scene \<times> event list" where
  "useFrame c f s0 =
     (let s = shake_step f s0 in
      case audioRef f of
        None \<Rightarrow> (s, [])
      | Some a \<Rightarrow>
          if gameStatus f \<noteq> PLAYING then (s, [])
          else
            let t = currentTime a;
                s1 = s\<lparr>currentTimeState := t\<rparr>
            in if ended a then (s1, [SongEnd])
               else
                 let s2 = spawn_loop c t s1
                 in collide_loop c t (handPositionsRef f) (length (activeNotes s2)) (s2, []))"

text \<open>A session: the frames in the order the host delivers them, with the events of each.\<close>

fun run :: "constants \<Rightarrow> frame list \<Rightarrow> scene \<Rightarrow> scene \<times> event list" where
  "run c [] s = (s, [])"
| "run c (f # fs) s =
     (let r = useFrame c f s; r' = run c fs (fst r) in (fst r', snd r @ snd r'))"

subsection \<open>Predicates and sample data used by the theorems\<close>

text \<open>
  \<open>live\<close> holds of a frame that reaches the spawn and collision code (an audio element,
  status PLAYING, track not ended); \<open>song_over\<close> holds of a frame that takes the
  \<^verbatim>\<open>onSongEnd\<close> branch; \<open>clock\<close> is the audio time the frame reads. \<open>settle\<close> is
  the chart after every note of a set of chart positions has been decided once.
  \<open>wf_scene\<close> is the shape of the scenes that the callback produces from \<open>initial\<close>:
  the active list is strictly increasing and lies below the spawn cursor.
\<close>

definition settle ::
  "constants \<Rightarrow> real \<Rightarrow> HandPositions \<Rightarrow> nat set \<Rightarrow> NoteData list \<Rightarrow> NoteData list" where
  "settle c t h K ns =
     map (\<lambda>k. if k \<in> K then mark t (decide c t h (ns ! k)) (ns ! k) else ns ! k)
       [0..<length ns]"

definition wf_scene :: "scene \<Rightarrow> bool" where
  "wf_scene s \<longleftrightarrow>
     sorted_wrt (<) (activeNotes s)
     \<and> list_all (\<lambda>k. k < nextNoteIndex s) (activeNotes s)
     \<and> nextNoteIndex s \<le> length (notesState s)"

definition live :: "frame \<Rightarrow> bool" where
  "live f = (case audioRef f of None \<Rightarrow> False | Some a \<Rightarrow> gameStatus f = PLAYING \<and> \<not> ended a)"

definition song_over :: "frame \<Rightarrow> bool" where
  "song_over f = (case audioRef f of None \<Rightarrow> False | Some a \<Rightarrow> gameStatus f = PLAYING \<and> ended a)"

definition clock :: "frame \<Rightarrow> real" where
  "clock f = (case audioRef f of None \<Rightarrow> 0 | Some a \<Rightarrow> currentTime a)"

definition terminal :: "NoteData \<Rightarrow> bool" where
  "terminal n \<longleftrightarrow> hit n \<or> missed n"

definition note_inv :: "NoteData \<Rightarrow> bool" where
  "note_inv n \<longleftrightarrow>
     \<not> (hit n \<and> missed n) \<and> (hitTime n \<noteq> None) = hit n \<and> (accuracy n \<noteq> None) = hit n"

definition sample_directions :: "CutDirection \<Rightarrow> Vector3" where
  "sample_directions d =
     (case d of
        UP \<Rightarrow> \<lparr>vx = 0, vy = 1, vz = 0\<rparr>
      | DOWN \<Rightarrow> \<lparr>vx = 0, vy = -1, vz = 0\<rparr>
      | LEFT \<Rightarrow> \<lparr>vx = -1, vy = 0, vz = 0\<rparr>
      | RIGHT \<Rightarrow> \<lparr>vx = 1, vy = 0, vz = 0\<rparr>
      | ANY \<Rightarrow> \<lparr>vx = 0, vy = 0, vz = 0\<rparr>)"

definition sample_constants :: constants where
  "sample_constants =
     \<lparr>PLAYER_Z = 0, SPAWN_Z = -30, MISS_Z = 5, NOTE_SPEED = 10,
      LANE_X_POSITIONS = [-1.2, -0.4, 0.4, 1.2], LAYER_Y_POSITIONS = [0.8, 1.6, 2.4],
      DIRECTION_VECTORS = sample_directions\<rparr>"

definition sample_note :: "real \<Rightarrow> NoteData" where
  "sample_note t =
     \<lparr>note_id = ''n'', time = t, lineIndex = 1, lineLayer = 0, note_type = Left,
      cutDirection = UP, hit = False, missed = False, hitTime = None, accuracy = None\<rparr>"

definition idle_hands :: HandPositions where
  "idle_hands =
     \<lparr>left = None, right = None, leftVelocity = \<lparr>vx = 0, vy = 0, vz = 0\<rparr>,
      rightVelocity = \<lparr>vx = 0, vy = 0, vz = 0\<rparr>\<rparr>"

definition swing_hands :: "Vector3 \<Rightarrow> Vector3 \<Rightarrow> HandPositions" where
  "swing_hands p v =
     \<lparr>left = Some p, right = None, leftVelocity = v,
      rightVelocity = \<lparr>vx = 0, vy = 0, vz = 0\<rparr>\<rparr>"

definition sample_frame :: "GameStatus \<Rightarrow> real \<Rightarrow> bool \<Rightarrow> HandPositions \<Rightarrow> frame" where
  "sample_frame st t e h =
     \<lparr>gameStatus = st, audioRef = Some \<lparr>currentTime = t, ended = e\<rparr>,
      handPositionsRef = h, delta = 1 / 60, cameraRef = True\<rparr>"

definition soft_gate_fails :: "constants \<Rightarrow> real \<Rightarrow> HandPositions \<Rightarrow> NoteData \<Rightarrow> bool" where
  "soft_gate_fails c t hands note =
     (let currentZ = currentZ_of c t note;
          handPos = (if note_type note = Left then left hands else right hands);
          handVel = (if note_type note = Left then leftVelocity hands else rightVelocity hands)
      in (case handPos of None \<Rightarrow> True
          | Some hp \<Rightarrow> \<not> touching hp (notePos_of c note currentZ))
         \<or> vlength handVel < 0.5
         \<or> angleScore_of c note handVel \<le> 0.1)"

definition in_tables :: "constants \<Rightarrow> NoteData \<Rightarrow> bool" where
  "in_tables c n \<longleftrightarrow>
     0 \<le> lineIndex n \<and> lineIndex n < int (length (LANE_X_POSITIONS c))
     \<and> 0 \<le> lineLayer n \<and> lineLayer n < int (length (LAYER_Y_POSITIONS c))"

definition tight_constants :: constants where
  "tight_constants = sample_constants\<lparr>MISS_Z := 1\<rparr>"

definition on_note_hands :: "real \<Rightarrow> real \<Rightarrow> HandPositions" where
  "on_note_hands z speed = swing_hands \<lparr>vx = -0.4, vy = 0.8, vz = z\<rparr> \<lparr>vx = 0, vy = speed, vz = 0\<rparr>"

section \<open>Properties of the two loops\<close>

declare spawn_loop.simps [simp del]

subsection \<open>One pass of the collision loop\<close>

lemma decide_terminal: "hit n \<or> missed n \<Longrightarrow> decide c t h n = Skip"
  by (simp add: decide_def)

lemma mark_settled:
  "mark t (decide c t h (mark t (decide c t h n) n)) (mark t (decide c t h n) n)
     = mark t (decide c t h n) n"
  by (cases "decide c t h n") (simp_all add: decide_terminal)

lemma notesState_collide_note:
  "notesState (fst (collide_note c t h i se)) =
     (notesState (fst se))
       [activeNotes (fst se) ! i :=
          mark t (decide c t h (notesState (fst se) ! (activeNotes (fst se) ! i)))
            (notesState (fst se) ! (activeNotes (fst se) ! i))]"
  by (cases "decide c t h (notesState (fst se) ! (activeNotes (fst se) ! i))")
     (simp_all add: collide_note_def Let_def)

lemma activeNotes_collide_note:
  "activeNotes (fst (collide_note c t h i se)) =
     (if decide c t h (notesState (fst se) ! (activeNotes (fst se) ! i)) = Skip
      then activeNotes (fst se) else splice1 i (activeNotes (fst se)))"
  by (cases "decide c t h (notesState (fst se) ! (activeNotes (fst se) ! i))")
     (simp_all add: collide_note_def Let_def)

lemma events_collide_note:
  "snd (collide_note c t h i se) =
     snd se @ emitted (activeNotes (fst se) ! i)
       (decide c t h (notesState (fst se) ! (activeNotes (fst se) ! i)))"
  by (cases "decide c t h (notesState (fst se) ! (activeNotes (fst se) ! i))")
     (simp_all add: collide_note_def Let_def)


lemma take_splice1: "take i (splice1 i xs) = take i xs"
  by (simp add: splice1_def min_def)

lemma drop_splice1: "i < length xs \<Longrightarrow> drop i (splice1 i xs) = drop (Suc i) xs"
  by (simp add: splice1_def)

lemma nth_notin_take: "distinct xs \<Longrightarrow> i < length xs \<Longrightarrow> xs ! i \<notin> set (take i xs)"
  by (auto simp: in_set_conv_nth distinct_conv_nth)

lemma distinct_splice1: "distinct xs \<Longrightarrow> distinct (splice1 i xs)"
  by (simp add: splice1_def set_take_disj_set_drop_if_distinct)

lemma settle_update:
  "settle c t h K (ns[k := mark t (decide c t h (ns ! k)) (ns ! k)]) = settle c t h (insert k K) ns"
proof (cases "k < length ns")
  case True
  then show ?thesis
    by (intro nth_equalityI) (auto simp: settle_def nth_list_update mark_settled)
next
  case False
  then show ?thesis
    by (intro nth_equalityI) (auto simp: settle_def)
qed

lemma notesState_collide_loop:
  "p \<le> length (activeNotes (fst se)) \<Longrightarrow>
   notesState (fst (collide_loop c t h p se)) =
     settle c t h (set (take p (activeNotes (fst se)))) (notesState (fst se))"
proof (induction p arbitrary: se)
  case 0
  show ?case by (auto simp: settle_def intro: nth_equalityI)
next
  case (Suc i)
  let ?a = "activeNotes (fst se)"
  let ?se1 = "collide_note c t h i se"
  have len: "i < length ?a" using Suc.prems by simp
  have tk: "take i (activeNotes (fst ?se1)) = take i ?a"
    by (simp add: activeNotes_collide_note take_splice1)
  have le: "i \<le> length (activeNotes (fst ?se1))"
    using len by (auto simp: activeNotes_collide_note splice1_def)
  have "notesState (fst (collide_loop c t h (Suc i) se)) =
        settle c t h (set (take i ?a)) (notesState (fst ?se1))"
    using Suc.IH [OF le] tk by simp
  also have "\<dots> = settle c t h (insert (?a ! i) (set (take i ?a))) (notesState (fst se))"
    by (simp add: notesState_collide_note settle_update)
  also have "insert (?a ! i) (set (take i ?a)) = set (take (Suc i) ?a)"
    using len by (simp add: take_Suc_conv_app_nth)
  finally show ?case .
qed


lemma activeNotes_collide_loop:
  "p \<le> length (activeNotes (fst se)) \<Longrightarrow> distinct (activeNotes (fst se)) \<Longrightarrow>
   activeNotes (fst (collide_loop c t h p se)) =
     filter (\<lambda>k. decide c t h (notesState (fst se) ! k) = Skip) (take p (activeNotes (fst se)))
     @ drop p (activeNotes (fst se))"
proof (induction p arbitrary: se)
  case 0
  show ?case by simp
next
  case (Suc i)
  let ?a = "activeNotes (fst se)"
  let ?ns = "notesState (fst se)"
  let ?se1 = "collide_note c t h i se"
  let ?P = "\<lambda>k. decide c t h (?ns ! k) = Skip"
  have len: "i < length ?a" using Suc.prems by simp
  have tk: "take i (activeNotes (fst ?se1)) = take i ?a"
    by (simp add: activeNotes_collide_note take_splice1)
  have le: "i \<le> length (activeNotes (fst ?se1))"
    using len by (auto simp: activeNotes_collide_note splice1_def)
  have d1: "distinct (activeNotes (fst ?se1))"
    using Suc.prems(2) by (simp add: activeNotes_collide_note distinct_splice1)
  have same: "\<And>k. k \<in> set (take i ?a) \<Longrightarrow> notesState (fst ?se1) ! k = ?ns ! k"
    using nth_notin_take [OF Suc.prems(2) len]
    by (metis notesState_collide_note nth_list_update_neq)
  have flt: "filter (\<lambda>k. decide c t h (notesState (fst ?se1) ! k) = Skip) (take i ?a)
             = filter ?P (take i ?a)"
    by (rule filter_cong) (simp_all add: same)
  have dr: "drop i (activeNotes (fst ?se1)) = (if ?P (?a ! i) then [?a ! i] else []) @ drop (Suc i) ?a"
    using len by (simp add: activeNotes_collide_note drop_splice1 Cons_nth_drop_Suc)
  have "activeNotes (fst (collide_loop c t h (Suc i) se)) =
        filter ?P (take i ?a) @ drop i (activeNotes (fst ?se1))"
    using Suc.IH [OF le d1] tk flt by simp
  also have "\<dots> = filter ?P (take (Suc i) ?a) @ drop (Suc i) ?a"
    using len by (simp add: dr take_Suc_conv_app_nth)
  finally show ?case .
qed

lemma events_collide_loop:
  "p \<le> length (activeNotes (fst se)) \<Longrightarrow> distinct (activeNotes (fst se)) \<Longrightarrow>
   snd (collide_loop c t h p se) =
     snd se @ concat (map (\<lambda>k. emitted k (decide c t h (notesState (fst se) ! k)))
                        (rev (take p (activeNotes (fst se)))))"
proof (induction p arbitrary: se)
  case 0
  show ?case by simp
next
  case (Suc i)
  let ?a = "activeNotes (fst se)"
  let ?ns = "notesState (fst se)"
  let ?se1 = "collide_note c t h i se"
  have len: "i < length ?a" using Suc.prems by simp
  have tk: "take i (activeNotes (fst ?se1)) = take i ?a"
    by (simp add: activeNotes_collide_note take_splice1)
  have le: "i \<le> length (activeNotes (fst ?se1))"
    using len by (auto simp: activeNotes_collide_note splice1_def)
  have d1: "distinct (activeNotes (fst ?se1))"
    using Suc.prems(2) by (simp add: activeNotes_collide_note distinct_splice1)
  have same: "\<And>k. k \<in> set (take i ?a) \<Longrightarrow> notesState (fst ?se1) ! k = ?ns ! k"
    using nth_notin_take [OF Suc.prems(2) len]
    by (metis notesState_collide_note nth_list_update_neq)
  have mp: "map (\<lambda>k. emitted k (decide c t h (notesState (fst ?se1) ! k))) (rev (take i ?a))
            = map (\<lambda>k. emitted k (decide c t h (?ns ! k))) (rev (take i ?a))"
    by (rule map_cong) (simp_all add: same)
  show ?case
    using Suc.IH [OF le d1] tk mp len
    by (simp add: events_collide_note take_Suc_conv_app_nth)
qed

subsection \<open>The spawn loop in closed form\<close>

lemma spawn_loop_keeps:
  "notesState (spawn_loop c t s) = notesState s
   \<and> shakeIntensity (spawn_loop c t s) = shakeIntensity s
   \<and> currentTimeState (spawn_loop c t s) = currentTimeState s"
proof (induction c t s rule: spawn_loop.induct)
  case (1 c t s)
  show ?case
  proof (cases "nextNoteIndex s < length (notesState s) \<and> due c t (notesState s ! nextNoteIndex s)")
    case True
    then show ?thesis using "1.IH" by (subst (1 2 3) spawn_loop.simps) simp
  next
    case False
    then show ?thesis by (subst (1 2 3) spawn_loop.simps) auto
  qed
qed

lemma spawn_loop_cursor:
  "nextNoteIndex (spawn_loop c t s) =
     nextNoteIndex s + length (takeWhile (due c t) (drop (nextNoteIndex s) (notesState s)))"
proof (induction c t s rule: spawn_loop.induct)
  case (1 c t s)
  show ?case
  proof (cases "nextNoteIndex s < length (notesState s)")
    case lt: True
    show ?thesis
    proof (cases "due c t (notesState s ! nextNoteIndex s)")
      case True
      have "drop (nextNoteIndex s) (notesState s)
              = notesState s ! nextNoteIndex s # drop (Suc (nextNoteIndex s)) (notesState s)"
        using lt by (simp add: Cons_nth_drop_Suc)
      then show ?thesis using "1.IH" [OF lt True] lt True
        by (subst spawn_loop.simps) simp
    next
      case False
      have "drop (nextNoteIndex s) (notesState s)
              = notesState s ! nextNoteIndex s # drop (Suc (nextNoteIndex s)) (notesState s)"
        using lt by (simp add: Cons_nth_drop_Suc)
      then show ?thesis using lt False by (subst spawn_loop.simps) simp
    qed
  next
    case False
    then show ?thesis by (subst spawn_loop.simps) simp
  qed
qed

lemma spawn_loop_active:
  "activeNotes (spawn_loop c t s) =
     activeNotes s @ [nextNoteIndex s ..< nextNoteIndex (spawn_loop c t s)]"
proof (induction c t s rule: spawn_loop.induct)
  case (1 c t s)
  show ?case
  proof (cases "nextNoteIndex s < length (notesState s) \<and> due c t (notesState s ! nextNoteIndex s)")
    case True
    let ?s1 = "s\<lparr>activeNotes := activeNotes s @ [nextNoteIndex s],
                  nextNoteIndex := Suc (nextNoteIndex s)\<rparr>"
    have eq: "spawn_loop c t s = spawn_loop c t ?s1"
      using True by (subst spawn_loop.simps) simp
    have "Suc (nextNoteIndex s) \<le> nextNoteIndex (spawn_loop c t ?s1)"
      by (simp add: spawn_loop_cursor)
    then have "[nextNoteIndex s ..< nextNoteIndex (spawn_loop c t ?s1)]
               = nextNoteIndex s # [Suc (nextNoteIndex s) ..< nextNoteIndex (spawn_loop c t ?s1)]"
      by (simp add: upt_conv_Cons)
    then show ?thesis using "1.IH" True by (simp add: eq)
  next
    case False
    then have "spawn_loop c t s = s" by (subst spawn_loop.simps) auto
    then show ?thesis by simp
  qed
qed

lemma spawn_loop_cursor_le:
  "nextNoteIndex s \<le> length (notesState s) \<Longrightarrow>
   nextNoteIndex (spawn_loop c t s) \<le> length (notesState s)"
proof -
  assume a: "nextNoteIndex s \<le> length (notesState s)"
  have "length (takeWhile (due c t) (drop (nextNoteIndex s) (notesState s)))
          \<le> length (drop (nextNoteIndex s) (notesState s))"
    by (rule length_takeWhile_le)
  then show ?thesis using a by (simp add: spawn_loop_cursor)
qed





lemma wf_scene_spawn_loop: "wf_scene s \<Longrightarrow> wf_scene (spawn_loop c t s)"
proof -
  assume w: "wf_scene s"
  have le: "nextNoteIndex s \<le> nextNoteIndex (spawn_loop c t s)"
    by (simp add: spawn_loop_cursor)
  have "sorted_wrt (<) (activeNotes s @ [nextNoteIndex s ..< nextNoteIndex (spawn_loop c t s)])"
    using w by (auto simp: wf_scene_def sorted_wrt_append list_all_iff)
  moreover have "list_all (\<lambda>k. k < nextNoteIndex (spawn_loop c t s))
                   (activeNotes s @ [nextNoteIndex s ..< nextNoteIndex (spawn_loop c t s)])"
    using w le by (auto simp: wf_scene_def list_all_iff)
  moreover have "nextNoteIndex (spawn_loop c t s) \<le> length (notesState (spawn_loop c t s))"
    using w by (simp add: wf_scene_def spawn_loop_cursor_le spawn_loop_keeps)
  ultimately show ?thesis
    unfolding wf_scene_def by (simp add: spawn_loop_active [symmetric])
qed

subsection \<open>One frame in closed form\<close>

lemma length_settle: "length (settle c t h K ns) = length ns"
  by (simp add: settle_def)

lemma nth_settle:
  "k < length ns \<Longrightarrow>
   settle c t h K ns ! k = (if k \<in> K then mark t (decide c t h (ns ! k)) (ns ! k) else ns ! k)"
  by (simp add: settle_def)

lemma shake_step_keeps:
  "notesState (shake_step f s) = notesState s \<and> activeNotes (shake_step f s) = activeNotes s
   \<and> nextNoteIndex (shake_step f s) = nextNoteIndex s
   \<and> currentTimeState (shake_step f s) = currentTimeState s"
  by (simp add: shake_step_def Let_def)

lemma spawn_loop_gameplay:
  assumes "notesState s1 = notesState s" "activeNotes s1 = activeNotes s"
    "nextNoteIndex s1 = nextNoteIndex s"
  shows "nextNoteIndex (spawn_loop c t s1) = nextNoteIndex (spawn_loop c t s)"
    and "activeNotes (spawn_loop c t s1) = activeNotes (spawn_loop c t s)"
    and "notesState (spawn_loop c t s1) = notesState s"
proof -
  show n: "nextNoteIndex (spawn_loop c t s1) = nextNoteIndex (spawn_loop c t s)"
    using assms by (simp add: spawn_loop_cursor)
  show "activeNotes (spawn_loop c t s1) = activeNotes (spawn_loop c t s)"
    using assms n by (simp add: spawn_loop_active [of c t s1] spawn_loop_active [of c t s])
  show "notesState (spawn_loop c t s1) = notesState s"
    using assms by (simp add: spawn_loop_keeps)
qed

lemma useFrame_live:
  assumes "live f"
  shows "useFrame c f s =
           collide_loop c (clock f) (handPositionsRef f)
             (length (activeNotes (spawn_loop c (clock f)
                        ((shake_step f s)\<lparr>currentTimeState := clock f\<rparr>))))
             (spawn_loop c (clock f) ((shake_step f s)\<lparr>currentTimeState := clock f\<rparr>), [])"
  using assms by (auto simp: live_def clock_def useFrame_def Let_def split: option.splits)

lemma useFrame_not_live:
  assumes "\<not> live f"
  shows "notesState (fst (useFrame c f s)) = notesState s"
    and "activeNotes (fst (useFrame c f s)) = activeNotes s"
    and "nextNoteIndex (fst (useFrame c f s)) = nextNoteIndex s"
    and "snd (useFrame c f s) = (if song_over f then [SongEnd] else [])"
  using assms
  by (auto simp: live_def song_over_def useFrame_def Let_def shake_step_keeps split: option.splits)

lemma live_notes:
  assumes "live f"
  shows "notesState (fst (useFrame c f s)) =
           settle c (clock f) (handPositionsRef f)
             (set (activeNotes (spawn_loop c (clock f) s))) (notesState s)"
proof -
  let ?s1 = "(shake_step f s)\<lparr>currentTimeState := clock f\<rparr>"
  have g: "notesState ?s1 = notesState s" "activeNotes ?s1 = activeNotes s"
    "nextNoteIndex ?s1 = nextNoteIndex s"
    by (simp_all add: shake_step_keeps)
  show ?thesis
    by (simp add: useFrame_live [OF assms] notesState_collide_loop spawn_loop_gameplay [OF g])
qed


lemma wf_scene_distinct: "wf_scene s \<Longrightarrow> distinct (activeNotes s)"
  by (simp add: wf_scene_def strict_sorted_iff)

lemma live_active:
  assumes "live f" and w: "wf_scene s"
  shows "activeNotes (fst (useFrame c f s)) =
           filter (\<lambda>k. decide c (clock f) (handPositionsRef f) (notesState s ! k) = Skip)
             (activeNotes (spawn_loop c (clock f) s))"
proof -
  let ?s1 = "(shake_step f s)\<lparr>currentTimeState := clock f\<rparr>"
  have g: "notesState ?s1 = notesState s" "activeNotes ?s1 = activeNotes s"
    "nextNoteIndex ?s1 = nextNoteIndex s"
    by (simp_all add: shake_step_keeps)
  have d: "distinct (activeNotes (spawn_loop c (clock f) s))"
    using w by (intro wf_scene_distinct wf_scene_spawn_loop)
  show ?thesis
    using d
    by (simp add: useFrame_live [OF assms(1)] activeNotes_collide_loop spawn_loop_gameplay [OF g])
qed

lemma live_events:
  assumes "live f" and w: "wf_scene s"
  shows "snd (useFrame c f s) =
           concat (map (\<lambda>k. emitted k (decide c (clock f) (handPositionsRef f) (notesState s ! k)))
                     (rev (activeNotes (spawn_loop c (clock f) s))))"
proof -
  let ?s1 = "(shake_step f s)\<lparr>currentTimeState := clock f\<rparr>"
  have g: "notesState ?s1 = notesState s" "activeNotes ?s1 = activeNotes s"
    "nextNoteIndex ?s1 = nextNoteIndex s"
    by (simp_all add: shake_step_keeps)
  have d: "distinct (activeNotes (spawn_loop c (clock f) s))"
    using w by (intro wf_scene_distinct wf_scene_spawn_loop)
  show ?thesis
    using d
    by (simp add: useFrame_live [OF assms(1)] events_collide_loop spawn_loop_gameplay [OF g])
qed



lemma wf_scene_initial: "wf_scene (initial chart)"
  by (simp add: wf_scene_def initial_def)

subsection \<open>Notes across frames\<close>

lemma terminal_mark: "terminal n \<Longrightarrow> mark t (decide c t h n) n = n"
  by (simp add: terminal_def decide_terminal)

lemma note_inv_mark: "note_inv n \<Longrightarrow> note_inv (mark t (decide c t h n) n)"
proof (cases "decide c t h n")
  case Skip
  assume "note_inv n"
  then show ?thesis using Skip by simp
next
  case Miss
  assume i: "note_inv n"
  have "\<not> hit n" using Miss decide_terminal [of n c t h] by auto
  then show ?thesis using i Miss by (simp add: note_inv_def)
next
  case (Hit a)
  assume i: "note_inv n"
  have "\<not> missed n" using Hit decide_terminal [of n c t h] by auto
  then show ?thesis using i Hit by (simp add: note_inv_def)
qed

lemma frame_note_step:
  assumes "k < length (notesState s)"
  shows "notesState (fst (useFrame c f s)) ! k = notesState s ! k
       \<or> (live f \<and> notesState (fst (useFrame c f s)) ! k =
            mark (clock f) (decide c (clock f) (handPositionsRef f) (notesState s ! k))
              (notesState s ! k))"
proof (cases "live f")
  case True
  then show ?thesis using assms by (simp add: live_notes nth_settle)
next
  case False
  then show ?thesis by (simp add: useFrame_not_live)
qed

lemma frame_length: "length (notesState (fst (useFrame c f s))) = length (notesState s)"
  by (cases "live f") (simp_all add: live_notes length_settle useFrame_not_live)

lemma frame_note_inv:
  assumes "list_all note_inv (notesState s)"
  shows "list_all note_inv (notesState (fst (useFrame c f s)))"
proof -
  have "\<And>k. k < length (notesState s) \<Longrightarrow> note_inv (notesState (fst (useFrame c f s)) ! k)"
  proof -
    fix k assume k: "k < length (notesState s)"
    have "note_inv (notesState s ! k)" using assms k by (simp add: list_all_length)
    then show "note_inv (notesState (fst (useFrame c f s)) ! k)"
      using frame_note_step [OF k, of c f] note_inv_mark by metis
  qed
  then show ?thesis by (simp add: list_all_length frame_length)
qed

lemma frame_terminal_fixed:
  assumes "k < length (notesState s)" "terminal (notesState s ! k)"
  shows "notesState (fst (useFrame c f s)) ! k = notesState s ! k"
  using frame_note_step [OF assms(1), of c f] terminal_mark [OF assms(2)] by metis

lemma run_length: "length (notesState (fst (run c fs s))) = length (notesState s)"
  by (induction fs arbitrary: s) (simp_all add: Let_def frame_length)

lemma run_note_inv:
  "list_all note_inv (notesState s) \<Longrightarrow> list_all note_inv (notesState (fst (run c fs s)))"
  by (induction fs arbitrary: s) (simp_all add: Let_def frame_note_inv)

lemma run_terminal_fixed:
  "k < length (notesState s) \<Longrightarrow> terminal (notesState s ! k) \<Longrightarrow>
   notesState (fst (run c fs s)) ! k = notesState s ! k"
proof (induction fs arbitrary: s)
  case Nil
  show ?case by simp
next
  case (Cons f fs)
  let ?s1 = "fst (useFrame c f s)"
  have e: "notesState ?s1 ! k = notesState s ! k"
    using Cons.prems by (rule frame_terminal_fixed)
  have "notesState (fst (run c fs ?s1)) ! k = notesState ?s1 ! k"
    using Cons.prems e by (intro Cons.IH) (simp_all add: frame_length)
  then show ?case using e by (simp add: Let_def)
qed

subsection \<open>Events\<close>

lemma no_SongEnd_emitted: "SongEnd \<notin> set (emitted k d)"
  by (cases d) simp_all

lemma no_SongEnd_collide_loop:
  "SongEnd \<notin> set (snd se) \<Longrightarrow> SongEnd \<notin> set (snd (collide_loop c t h p se))"
  by (induction p arbitrary: se) (simp_all add: events_collide_note no_SongEnd_emitted)

lemma frame_SongEnd: "count_list (snd (useFrame c f s)) SongEnd = (if song_over f then 1 else 0)"
proof (cases "live f")
  case True
  then have "\<not> song_over f" by (auto simp: live_def song_over_def split: option.splits)
  moreover have "SongEnd \<notin> set (snd (useFrame c f s))"
    by (simp add: useFrame_live [OF True] no_SongEnd_collide_loop)
  ultimately show ?thesis by (simp add: count_list_0_iff)
next
  case False
  then show ?thesis by (simp add: useFrame_not_live)
qed

lemma run_SongEnd: "count_list (snd (run c fs s)) SongEnd = length (filter song_over fs)"
  by (induction fs arbitrary: s) (simp_all add: Let_def frame_SongEnd)

subsection \<open>Unfolding the model on sample data\<close>

lemmas sample_defs = sample_constants_def sample_note_def sample_frame_def idle_hands_def
  swing_hands_def on_note_hands_def sample_directions_def initial_def

lemmas frame_defs = useFrame_def shake_step_def Let_def spawn_loop.simps due_def
  spawnAheadTime_def collide_note_def decide_def currentZ_of_def in_collision_window_def
  touching_def notePos_of_def table_at_def distanceTo_def vlength_def angleScore_of_def
  normalize_def dot_def grade_def splice1_def lerp_def

lemmas model_defs = sample_defs frame_defs live_def song_over_def clock_def wf_scene_def
  terminal_def

subsection \<open>Decisions and their events within a frame\<close>

lemma soft_gate_Skip:
  "\<not> currentZ_of c t n > MISS_Z c \<Longrightarrow> soft_gate_fails c t h n \<Longrightarrow> decide c t h n = Skip"
  by (cases "note_type n = Left")
     (auto simp: decide_def soft_gate_fails_def Let_def split: option.splits)

lemma decide_Miss_iff:
  "decide c t h n = Miss \<longleftrightarrow> \<not> terminal n \<and> currentZ_of c t n > MISS_Z c"
  by (auto simp: decide_def terminal_def Let_def split: option.splits)

lemma NoteMiss_emitted: "NoteMiss k \<in> set (emitted j d) \<longleftrightarrow> j = k \<and> d = Miss"
  by (cases d) auto

lemma NoteHit_emitted: "NoteHit k a \<in> set (emitted j d) \<longleftrightarrow> j = k \<and> d = Hit a"
  by (cases d) auto

lemma live_NoteMiss:
  assumes "live f" "wf_scene s"
  shows "NoteMiss k \<in> set (snd (useFrame c f s)) \<longleftrightarrow>
           k \<in> set (activeNotes (spawn_loop c (clock f) s))
           \<and> decide c (clock f) (handPositionsRef f) (notesState s ! k) = Miss"
  by (auto simp: live_events [OF assms] NoteMiss_emitted)

lemma live_NoteHit:
  assumes "live f" "wf_scene s"
  shows "NoteHit k a \<in> set (snd (useFrame c f s)) \<longleftrightarrow>
           k \<in> set (activeNotes (spawn_loop c (clock f) s))
           \<and> decide c (clock f) (handPositionsRef f) (notesState s ! k) = Hit a"
  by (auto simp: live_events [OF assms] NoteHit_emitted)

lemma active_in_chart:
  assumes "wf_scene s" "k \<in> set (activeNotes (spawn_loop c t s))"
  shows "k < length (notesState s)"
proof -
  have "wf_scene (spawn_loop c t s)" using assms(1) by (rule wf_scene_spawn_loop)
  then show ?thesis using assms(2) by (auto simp: wf_scene_def list_all_iff spawn_loop_keeps)
qed

lemma time_mark: "time (mark t d n) = time n"
  by (cases d) simp_all

lemma missed_mark: "missed (mark t d n) \<longleftrightarrow> missed n \<or> d = Miss"
  by (cases d) simp_all

lemma frame_missed_cause:
  assumes "k < length (notesState s)" "\<not> missed (notesState s ! k)"
    "missed (notesState (fst (useFrame c f s)) ! k)"
  shows "live f \<and> currentZ_of c (clock f) (notesState s ! k) > MISS_Z c"
  using frame_note_step [OF assms(1), of c f] assms(2,3)
  by (auto simp: missed_mark decide_Miss_iff)

lemma frame_time: "k < length (notesState s) \<Longrightarrow>
  time (notesState (fst (useFrame c f s)) ! k) = time (notesState s ! k)"
  using frame_note_step [of k s c f] by (auto simp: time_mark)

lemma run_missed_cause:
  "k < length (notesState s) \<Longrightarrow> \<not> missed (notesState s ! k) \<Longrightarrow>
   missed (notesState (fst (run c fs s)) ! k) \<Longrightarrow>
   \<exists>f\<in>set fs. live f \<and> currentZ_of c (clock f) (notesState s ! k) > MISS_Z c"
proof (induction fs arbitrary: s)
  case Nil
  then show ?case by simp
next
  case (Cons f fs)
  let ?s1 = "fst (useFrame c f s)"
  show ?case
  proof (cases "missed (notesState ?s1 ! k)")
    case True
    then show ?thesis using frame_missed_cause [OF Cons.prems(1,2)] by auto
  next
    case False
    have k1: "k < length (notesState ?s1)" using Cons.prems(1) by (simp add: frame_length)
    have m: "missed (notesState (fst (run c fs ?s1)) ! k)"
      using Cons.prems(3) by (simp add: Let_def)
    obtain g where g: "g \<in> set fs" "live g"
      "currentZ_of c (clock g) (notesState ?s1 ! k) > MISS_Z c"
      using Cons.IH [OF k1 False m] by blast
    have "currentZ_of c (clock g) (notesState ?s1 ! k) = currentZ_of c (clock g) (notesState s ! k)"
      using frame_time [OF Cons.prems(1), of c f] by (simp add: currentZ_of_def)
    then show ?thesis using g by auto
  qed
qed

subsection \<open>The spawn cursor and suspended frames\<close>



lemma run_suspended:
  "list_all (\<lambda>f. gameStatus f \<noteq> PLAYING) fs \<Longrightarrow>
   snd (run c fs s) = [] \<and> notesState (fst (run c fs s)) = notesState s
   \<and> activeNotes (fst (run c fs s)) = activeNotes s
   \<and> nextNoteIndex (fst (run c fs s)) = nextNoteIndex s"
proof (induction fs arbitrary: s)
  case Nil
  show ?case by simp
next
  case (Cons f fs)
  have nl: "\<not> live f" "\<not> song_over f"
    using Cons.prems by (auto simp: live_def song_over_def split: option.splits)
  have tl: "list_all (\<lambda>f. gameStatus f \<noteq> PLAYING) fs" using Cons.prems by simp
  show ?case
    using Cons.IH [OF tl, of "fst (useFrame c f s)"] nl
    by (simp add: Let_def useFrame_not_live)
qed

section \<open>The claims\<close>

text \<open>
  C1. The frame callback calls \<^verbatim>\<open>onSongEnd\<close> on every frame that has an audio element,
  status PLAYING and the \<open>ended\<close> flag set: that frame emits the single event
  \<open>SongEnd\<close>, no hit and no miss, and leaves every note, the active list and the spawn cursor
  as they were; a frame of any other kind emits no \<open>SongEnd\<close>. Over a session the number
  of \<open>SongEnd\<close> events is therefore the number of such frames. The component keeps no
  record of having fired, so "exactly once" and "nothing after it" hold only when the host
  leaves the PLAYING status after the first such frame: \<open>song_end_counterexample\<close> runs two
  ended frames and gets the event twice, and runs an ended frame followed by a frame whose
  flag is clear and gets a miss after the song end.
\<close>

theorem song_end_on_each_ended_frame:
  "(song_over f \<longrightarrow>
      snd (useFrame c f s) = [SongEnd]
      \<and> notesState (fst (useFrame c f s)) = notesState s
      \<and> activeNotes (fst (useFrame c f s)) = activeNotes s
      \<and> nextNoteIndex (fst (useFrame c f s)) = nextNoteIndex s)
   \<and> (\<not> song_over f \<longrightarrow> SongEnd \<notin> set (snd (useFrame c f s)))
   \<and> count_list (snd (run c fs s)) SongEnd = length (filter song_over fs)"
proof -
  have a: "song_over f \<Longrightarrow> \<not> live f"
    by (auto simp: live_def song_over_def split: option.splits)
  have b: "\<not> song_over f \<Longrightarrow> SongEnd \<notin> set (snd (useFrame c f s))"
    using frame_SongEnd [of c f s] by (simp add: count_list_0_iff)
  show ?thesis using a b by (auto simp: useFrame_not_live run_SongEnd)
qed

theorem song_end_witness:
  "song_over (sample_frame PLAYING 10 True idle_hands)
   \<and> snd (useFrame sample_constants (sample_frame PLAYING 10 True idle_hands)
         (initial [sample_note 1])) = [SongEnd]
   \<and> notesState (fst (useFrame sample_constants (sample_frame PLAYING 10 True idle_hands)
         (initial [sample_note 1]))) = [sample_note 1]
   \<and> \<not> song_over (sample_frame PLAYING 10 False idle_hands)
   \<and> SongEnd \<notin> set (snd (useFrame sample_constants (sample_frame PLAYING 10 False idle_hands)
         (initial [sample_note 1])))
   \<and> count_list (snd (run sample_constants
        [sample_frame PLAYING 10 True idle_hands, sample_frame PAUSED 10 True idle_hands,
         sample_frame PLAYING 10 True idle_hands] (initial [sample_note 1]))) SongEnd = 2"
  using song_end_on_each_ended_frame [of "sample_frame PLAYING 10 True idle_hands"
      sample_constants "initial [sample_note 1]"
      "[sample_frame PLAYING 10 True idle_hands, sample_frame PAUSED 10 True idle_hands,
         sample_frame PLAYING 10 True idle_hands]"]
    song_end_on_each_ended_frame [of "sample_frame PLAYING 10 False idle_hands"
      sample_constants "initial [sample_note 1]" "[]"]
  by (simp add: model_defs)

theorem song_end_counterexample:
  "count_list (snd (run sample_constants
      [sample_frame PLAYING 10 True idle_hands, sample_frame PLAYING 10 True idle_hands]
      (initial [sample_note 1]))) SongEnd = 2
   \<and> snd (run sample_constants
      [sample_frame PLAYING 10 True idle_hands, sample_frame PLAYING 10 False idle_hands]
      (initial [sample_note 1])) = [SongEnd, NoteMiss 0]"
  by (simp add: model_defs)

text \<open>
  C2. A note is tested against the hand only when its depth lies in the open band from
  \<open>PLAYER_Z - 2.0\<close> to \<open>PLAYER_Z + 1.5\<close>: every hit has its depth in the band, and a pending
  note outside it that is not past the miss depth is left alone. Depth grows as the note
  travels (the miss test is \<open>currentZ > MISS_Z\<close>), so the margin of 2.0 lies on the approach
  side and the margin of 1.5 on the miss side; with a positive note speed the band is open
  from \<open>2.0 / NOTE_SPEED\<close> before the note's time until \<open>1.5 / NOTE_SPEED\<close> after it.
  The band is asymmetric, but the larger margin is the one ahead of the plane: no pair of
  margins with the smaller one on the approach side describes the window
  (\<open>collision_window_counterexample\<close>: a note 0.17 s before its time, at depth
  \<open>PLAYER_Z - 1.7\<close>, is inside the band, and 0.17 s after it, at \<open>PLAYER_Z + 1.7\<close>, is not).
\<close>

theorem collision_window_band:
  "(in_collision_window c z \<longleftrightarrow> PLAYER_Z c - 2.0 < z \<and> z < PLAYER_Z c + 1.5)
   \<and> (decide c t h n = Hit a \<longrightarrow> in_collision_window c (currentZ_of c t n))
   \<and> (\<not> in_collision_window c (currentZ_of c t n) \<and> \<not> currentZ_of c t n > MISS_Z c
        \<longrightarrow> decide c t h n = Skip)
   \<and> (0 < NOTE_SPEED c \<longrightarrow>
        (in_collision_window c (currentZ_of c t n) \<longleftrightarrow>
           time n - 2.0 / NOTE_SPEED c < t \<and> t < time n + 1.5 / NOTE_SPEED c))"
proof -
  have 4: "0 < NOTE_SPEED c \<longrightarrow>
        (in_collision_window c (currentZ_of c t n) \<longleftrightarrow>
           time n - 2.0 / NOTE_SPEED c < t \<and> t < time n + 1.5 / NOTE_SPEED c)"
  proof
    assume p: "0 < NOTE_SPEED c"
    have a: "time n - 2.0 / NOTE_SPEED c < t \<longleftrightarrow> (time n - t) * NOTE_SPEED c < 2.0"
      using p by (simp add: field_simps)
    have b: "t < time n + 1.5 / NOTE_SPEED c \<longleftrightarrow> - 1.5 < (time n - t) * NOTE_SPEED c"
      using p by (simp add: field_simps)
    show "in_collision_window c (currentZ_of c t n) \<longleftrightarrow>
           time n - 2.0 / NOTE_SPEED c < t \<and> t < time n + 1.5 / NOTE_SPEED c"
      unfolding a b by (auto simp: in_collision_window_def currentZ_of_def)
  qed
  have 2: "decide c t h n = Hit a \<longrightarrow> in_collision_window c (currentZ_of c t n)"
    by (auto simp: decide_def Let_def split: if_splits option.splits)
  have 3: "\<not> in_collision_window c (currentZ_of c t n) \<and> \<not> currentZ_of c t n > MISS_Z c
        \<longrightarrow> decide c t h n = Skip"
    by (auto simp: decide_def Let_def split: if_splits option.splits)
  show ?thesis using 2 3 4 by (simp add: in_collision_window_def)
qed

theorem collision_window_band_witness:
  "decide sample_constants 2 (on_note_hands 0 1) (sample_note 2) = Hit PERFECT
   \<and> in_collision_window sample_constants (currentZ_of sample_constants 2 (sample_note 2))
   \<and> in_collision_window sample_constants (-1.7)
   \<and> \<not> in_collision_window sample_constants 1.7
   \<and> \<not> in_collision_window sample_constants (currentZ_of sample_constants 2.17 (sample_note 2))
   \<and> decide sample_constants 2.17 (on_note_hands 1.7 1) (sample_note 2) = Skip
   \<and> 0 < NOTE_SPEED sample_constants
   \<and> in_collision_window sample_constants (currentZ_of sample_constants 1.83 (sample_note 2))"
  using collision_window_band [of sample_constants "-1.7" 2 "on_note_hands 0 1" "sample_note 2" PERFECT]
    collision_window_band [of sample_constants "1.7" "2.17" "on_note_hands 1.7 1" "sample_note 2" PERFECT]
    collision_window_band [of sample_constants "1.7" "1.83" "on_note_hands 1.7 1" "sample_note 2" PERFECT]
  by (simp add: model_defs)

theorem collision_window_counterexample:
  "in_collision_window sample_constants (currentZ_of sample_constants 1.83 (sample_note 2))
   \<and> currentZ_of sample_constants 1.83 (sample_note 2) = PLAYER_Z sample_constants - 1.7
   \<and> \<not> in_collision_window sample_constants (currentZ_of sample_constants 2.17 (sample_note 2))
   \<and> currentZ_of sample_constants 2.17 (sample_note 2) = PLAYER_Z sample_constants + 1.7
   \<and> \<not> (\<exists>ahead behind. ahead < behind
        \<and> (\<forall>z. in_collision_window sample_constants z \<longleftrightarrow>
              PLAYER_Z sample_constants - ahead < z \<and> z < PLAYER_Z sample_constants + behind))"
proof -
  have neg: "\<not> (\<exists>ahead behind. ahead < behind
        \<and> (\<forall>z. in_collision_window sample_constants z \<longleftrightarrow>
              PLAYER_Z sample_constants - ahead < z \<and> z < PLAYER_Z sample_constants + behind))"
  proof
    assume "\<exists>ahead behind. ahead < behind
          \<and> (\<forall>z. in_collision_window sample_constants z \<longleftrightarrow>
                PLAYER_Z sample_constants - ahead < z \<and> z < PLAYER_Z sample_constants + behind)"
    then obtain ahead behind where lt: "ahead < behind"
      and w: "\<And>z. in_collision_window sample_constants z \<longleftrightarrow>
                PLAYER_Z sample_constants - ahead < z \<and> z < PLAYER_Z sample_constants + behind"
      by blast
    have "in_collision_window sample_constants (-1.7)"
      by (simp add: in_collision_window_def sample_constants_def)
    then have 1: "1.7 < ahead" using w [of "-1.7"] by (simp add: sample_constants_def)
    have "\<not> in_collision_window sample_constants 1.7"
      by (simp add: in_collision_window_def sample_constants_def)
    then have 2: "behind \<le> 1.7" using w [of "1.7"] 1 by (simp add: sample_constants_def)
    show False using lt 1 2 by simp
  qed
  then show ?thesis
    by (simp add: in_collision_window_def currentZ_of_def sample_constants_def sample_note_def)
qed

text \<open>
  C3. From any scene whose notes satisfy \<open>note_inv\<close> (never both hit and missed; a hit
  time and a grade exactly when hit), every session keeps the chart's length, leaves every
  note satisfying \<open>note_inv\<close>, and returns every note that was already hit or missed
  unchanged in all its fields.
\<close>

theorem note_terminal_invariant:
  assumes "list_all note_inv (notesState s)"
  shows "length (notesState (fst (run c fs s))) = length (notesState s)
       \<and> list_all note_inv (notesState (fst (run c fs s)))
       \<and> (\<forall>k<length (notesState s). terminal (notesState s ! k) \<longrightarrow>
            notesState (fst (run c fs s)) ! k = notesState s ! k)"
  using assms by (simp add: run_length run_note_inv run_terminal_fixed)

theorem note_terminal_invariant_witness:
  "list_all note_inv (notesState (fst (useFrame sample_constants
       (sample_frame PLAYING 1 False (on_note_hands 0 1)) (initial [sample_note 1, sample_note 2]))))
   \<and> terminal (notesState (fst (useFrame sample_constants
       (sample_frame PLAYING 1 False (on_note_hands 0 1)) (initial [sample_note 1, sample_note 2]))) ! 0)
   \<and> notesState (fst (run sample_constants [sample_frame PLAYING 10 False (on_note_hands 0 1)]
        (fst (useFrame sample_constants
       (sample_frame PLAYING 1 False (on_note_hands 0 1)) (initial [sample_note 1, sample_note 2]))))) ! 0
      = (sample_note 1)\<lparr>hit := True, hitTime := Some 1, accuracy := Some PERFECT\<rparr>
   \<and> notesState (fst (run sample_constants [sample_frame PLAYING 10 False (on_note_hands 0 1)]
        (fst (useFrame sample_constants
       (sample_frame PLAYING 1 False (on_note_hands 0 1)) (initial [sample_note 1, sample_note 2]))))) ! 1
      = (sample_note 2)\<lparr>missed := True\<rparr>
   \<and> list_all note_inv (notesState (fst (run sample_constants [sample_frame PLAYING 10 False (on_note_hands 0 1)]
        (fst (useFrame sample_constants
       (sample_frame PLAYING 1 False (on_note_hands 0 1)) (initial [sample_note 1, sample_note 2]))))))"
  using note_terminal_invariant [of "fst (useFrame sample_constants
       (sample_frame PLAYING 1 False (on_note_hands 0 1)) (initial [sample_note 1, sample_note 2]))"
       sample_constants "[sample_frame PLAYING 10 False (on_note_hands 0 1)]"]
  by (simp add: model_defs note_inv_def)





text \<open>
  C6. For a fixed angle score above the direction gate of 0.1, a smaller timing error never
  gives a lower grade than a larger one (BAD below GOOD below PERFECT). The grade is PERFECT
  exactly for an error below 0.5 with a score above 0.5, and at least GOOD exactly for an error
  below 1.0 with a score above 0.2, so the PERFECT region lies inside the GOOD region, which
  lies inside the region that passes the gate. Every hit carries the grade of its timing error
  and angle score, with the score above 0.1; and a pending note that is not past the miss
  depth, is inside the window, passes the hand, distance, speed and direction gates but meets
  neither the PERFECT nor the GOOD condition is hit with grade BAD and is not missed.
\<close>

theorem grade_monotone_nested:
  "(0.1 < a \<and> d1 \<le> d2 \<longrightarrow> grade_rank (grade d2 a) \<le> grade_rank (grade d1 a))
   \<and> (grade d a = PERFECT \<longleftrightarrow> d < 0.5 \<and> 0.5 < a)
   \<and> (grade d a = PERFECT \<or> grade d a = GOOD \<longleftrightarrow> d < 1.0 \<and> 0.2 < a)
   \<and> (grade d a = PERFECT \<longrightarrow> d < 1.0 \<and> 0.2 < a)
   \<and> (d < 1.0 \<and> 0.2 < a \<longrightarrow> 0.1 < a)
   \<and> (decide c t h n = Hit g \<longrightarrow>
        g = grade \<bar>currentZ_of c t n - PLAYER_Z c\<bar> (angleScore_of c n
              (if note_type n = Left then leftVelocity h else rightVelocity h))
        \<and> 0.1 < angleScore_of c n (if note_type n = Left then leftVelocity h else rightVelocity h))
   \<and> (\<not> terminal n \<and> \<not> currentZ_of c t n > MISS_Z c \<and> in_collision_window c (currentZ_of c t n)
        \<and> \<not> soft_gate_fails c t h n
        \<and> \<not> (\<bar>currentZ_of c t n - PLAYER_Z c\<bar> < 0.5 \<and> 0.5 < angleScore_of c n
              (if note_type n = Left then leftVelocity h else rightVelocity h))
        \<and> \<not> (\<bar>currentZ_of c t n - PLAYER_Z c\<bar> < 1.0 \<and> 0.2 < angleScore_of c n
              (if note_type n = Left then leftVelocity h else rightVelocity h))
      \<longrightarrow> decide c t h n = Hit BAD \<and> hit (mark t (decide c t h n) n)
          \<and> \<not> missed (mark t (decide c t h n) n))"
proof -
  have 1: "0.1 < a \<and> d1 \<le> d2 \<longrightarrow> grade_rank (grade d2 a) \<le> grade_rank (grade d1 a)"
    by (auto simp: grade_def)
  have 2: "grade d a = PERFECT \<longleftrightarrow> d < 0.5 \<and> 0.5 < a"
    by (auto simp: grade_def)
  have 3: "grade d a = PERFECT \<or> grade d a = GOOD \<longleftrightarrow> d < 1.0 \<and> 0.2 < a"
    by (auto simp: grade_def)
  have 4: "grade d a = PERFECT \<longrightarrow> d < 1.0 \<and> 0.2 < a"
    by (auto simp: grade_def)
  have 5: "d < 1.0 \<and> 0.2 < a \<longrightarrow> 0.1 < a" by simp
  have 6: "decide c t h n = Hit g \<longrightarrow>
        g = grade \<bar>currentZ_of c t n - PLAYER_Z c\<bar> (angleScore_of c n
              (if note_type n = Left then leftVelocity h else rightVelocity h))
        \<and> 0.1 < angleScore_of c n (if note_type n = Left then leftVelocity h else rightVelocity h)"
    by (auto simp: decide_def Let_def split: if_splits option.splits)
  have 7: "\<not> terminal n \<and> \<not> currentZ_of c t n > MISS_Z c \<and> in_collision_window c (currentZ_of c t n)
        \<and> \<not> soft_gate_fails c t h n
        \<and> \<not> (\<bar>currentZ_of c t n - PLAYER_Z c\<bar> < 0.5 \<and> 0.5 < angleScore_of c n
              (if note_type n = Left then leftVelocity h else rightVelocity h))
        \<and> \<not> (\<bar>currentZ_of c t n - PLAYER_Z c\<bar> < 1.0 \<and> 0.2 < angleScore_of c n
              (if note_type n = Left then leftVelocity h else rightVelocity h))
      \<longrightarrow> decide c t h n = Hit BAD \<and> hit (mark t (decide c t h n) n)
          \<and> \<not> missed (mark t (decide c t h n) n)"
    by (auto simp: decide_def Let_def terminal_def soft_gate_fails_def grade_def
        split: if_splits option.splits)
  show ?thesis using 1 2 3 4 5 6 7 by blast
qed

theorem grade_monotone_nested_witness:
  "grade_rank (grade 0.7 0.6) \<le> grade_rank (grade 0.3 0.6)
   \<and> grade 0.3 0.6 = PERFECT \<and> grade 0.7 0.6 = GOOD \<and> grade 1.2 0.6 = BAD
   \<and> decide sample_constants 2.12 (on_note_hands 1.2 1) (sample_note 2) = Hit BAD
   \<and> \<not> missed (mark 2.12 (decide sample_constants 2.12 (on_note_hands 1.2 1) (sample_note 2)) (sample_note 2))"
  using grade_monotone_nested [of "0.6" "0.3" "0.7" "0.3" sample_constants "2.12" "on_note_hands 1.2 1"
      "sample_note 2" BAD]
  by (simp add: model_defs soft_gate_fails_def)

text \<open>
  C7. A frame whose status is not PLAYING emits no event and leaves the chart, the active
  list, the spawn cursor and the stored clock time as they were, and so does any sequence of
  such frames. (The shake intensity may still decay on such a frame.)
\<close>

theorem suspended_frame_keeps_gameplay:
  "(gameStatus f \<noteq> PLAYING \<longrightarrow>
      snd (useFrame c f s) = []
      \<and> notesState (fst (useFrame c f s)) = notesState s
      \<and> activeNotes (fst (useFrame c f s)) = activeNotes s
      \<and> nextNoteIndex (fst (useFrame c f s)) = nextNoteIndex s
      \<and> currentTimeState (fst (useFrame c f s)) = currentTimeState s)
   \<and> (list_all (\<lambda>f. gameStatus f \<noteq> PLAYING) fs \<longrightarrow>
        snd (run c fs s) = []
        \<and> notesState (fst (run c fs s)) = notesState s
        \<and> activeNotes (fst (run c fs s)) = activeNotes s
        \<and> nextNoteIndex (fst (run c fs s)) = nextNoteIndex s)"
proof -
  have "gameStatus f \<noteq> PLAYING \<longrightarrow>
      snd (useFrame c f s) = []
      \<and> notesState (fst (useFrame c f s)) = notesState s
      \<and> activeNotes (fst (useFrame c f s)) = activeNotes s
      \<and> nextNoteIndex (fst (useFrame c f s)) = nextNoteIndex s
      \<and> currentTimeState (fst (useFrame c f s)) = currentTimeState s"
    by (auto simp: useFrame_def shake_step_def Let_def split: option.splits)
  then show ?thesis using run_suspended [of fs c s] by blast
qed

theorem suspended_frame_witness:
  "gameStatus (sample_frame PAUSED 2 False (on_note_hands 0 1)) \<noteq> PLAYING
   \<and> snd (useFrame sample_constants (sample_frame PAUSED 2 False (on_note_hands 0 1))
        ((initial [sample_note 2])\<lparr>activeNotes := [0], nextNoteIndex := 1, shakeIntensity := 0.4\<rparr>)) = []
   \<and> notesState (fst (useFrame sample_constants (sample_frame PAUSED 2 False (on_note_hands 0 1))
        ((initial [sample_note 2])\<lparr>activeNotes := [0], nextNoteIndex := 1, shakeIntensity := 0.4\<rparr>)))
       = [sample_note 2]
   \<and> activeNotes (fst (useFrame sample_constants (sample_frame PAUSED 2 False (on_note_hands 0 1))
        ((initial [sample_note 2])\<lparr>activeNotes := [0], nextNoteIndex := 1, shakeIntensity := 0.4\<rparr>)))
       = [0]
   \<and> shakeIntensity (fst (useFrame sample_constants (sample_frame PAUSED 2 False (on_note_hands 0 1))
        ((initial [sample_note 2])\<lparr>activeNotes := [0], nextNoteIndex := 1, shakeIntensity := 0.4\<rparr>)))
       = 1 / 3
   \<and> list_all (\<lambda>f. gameStatus f \<noteq> PLAYING)
        [sample_frame PAUSED 2 False (on_note_hands 0 1), sample_frame ENDED 3 True idle_hands]
   \<and> snd (run sample_constants
        [sample_frame PAUSED 2 False (on_note_hands 0 1), sample_frame ENDED 3 True idle_hands]
        ((initial [sample_note 2])\<lparr>activeNotes := [0], nextNoteIndex := 1, shakeIntensity := 0.4\<rparr>)) = []"
  using suspended_frame_keeps_gameplay [of "sample_frame PAUSED 2 False (on_note_hands 0 1)"
      sample_constants
      "(initial [sample_note 2])\<lparr>activeNotes := [0], nextNoteIndex := 1, shakeIntensity := 0.4\<rparr>"
      "[sample_frame PAUSED 2 False (on_note_hands 0 1), sample_frame ENDED 3 True idle_hands]"]
  by (simp add: model_defs)

text \<open>
  C8. On a frame that reaches the collision loop, take a note of the active list that is not
  past the miss depth and fails a soft gate: its hand has no position, the hand is not within
  1.2 of the note, the hand speed is below 0.5, or the angle score is at most 0.1. Then the
  frame leaves the note's fields as they were, keeps it in the active list and emits neither
  a miss nor a hit for it. The only way a note is decided as a miss is to be pending with its
  depth past \<open>MISS_Z\<close>. (\<open>wf_scene\<close> holds of \<open>initial\<close> and is kept by every frame:
  \<open>wf_scene_initial\<close>, \<open>wf_scene_run\<close>.)
\<close>

theorem soft_gate_defers:
  assumes "wf_scene s" and "live f"
    and "k \<in> set (activeNotes (spawn_loop c (clock f) s))"
    and "\<not> currentZ_of c (clock f) (notesState s ! k) > MISS_Z c"
    and "soft_gate_fails c (clock f) (handPositionsRef f) (notesState s ! k)"
  shows "notesState (fst (useFrame c f s)) ! k = notesState s ! k
       \<and> k \<in> set (activeNotes (fst (useFrame c f s)))
       \<and> NoteMiss k \<notin> set (snd (useFrame c f s))
       \<and> (\<forall>a. NoteHit k a \<notin> set (snd (useFrame c f s)))
       \<and> (decide c t h n = Miss \<longleftrightarrow> \<not> terminal n \<and> currentZ_of c t n > MISS_Z c)"
proof -
  have d: "decide c (clock f) (handPositionsRef f) (notesState s ! k) = Skip"
    using assms(4,5) by (rule soft_gate_Skip)
  have k: "k < length (notesState s)" using assms(1,3) by (rule active_in_chart)
  show ?thesis
    using d k assms(3)
    by (simp add: live_notes [OF assms(2)] nth_settle live_active [OF assms(2,1)]
        live_NoteMiss [OF assms(2,1)] live_NoteHit [OF assms(2,1)] decide_Miss_iff)
qed

theorem soft_gate_defers_witness:
  "wf_scene (initial [sample_note 2])
   \<and> live (sample_frame PLAYING 2 False (on_note_hands 0 0))
   \<and> 0 \<in> set (activeNotes (spawn_loop sample_constants 2 (initial [sample_note 2])))
   \<and> soft_gate_fails sample_constants 2 (on_note_hands 0 0) (sample_note 2)
   \<and> notesState (fst (useFrame sample_constants (sample_frame PLAYING 2 False (on_note_hands 0 0))
         (initial [sample_note 2]))) ! 0 = sample_note 2
   \<and> 0 \<in> set (activeNotes (fst (useFrame sample_constants (sample_frame PLAYING 2 False (on_note_hands 0 0))
         (initial [sample_note 2]))))
   \<and> NoteMiss 0 \<notin> set (snd (useFrame sample_constants (sample_frame PLAYING 2 False (on_note_hands 0 0))
         (initial [sample_note 2])))"
  using soft_gate_defers [of "initial [sample_note 2]" "sample_frame PLAYING 2 False (on_note_hands 0 0)"
      0 sample_constants 2 "on_note_hands 0 0" "sample_note 2"]
  by (simp add: model_defs soft_gate_fails_def)

text \<open>
  C9. If a note is not missed before a session and missed after it, then some frame of the
  session reached the collision loop at a clock time at which the note's projected depth was
  past \<open>MISS_Z\<close>. And on a frame that reaches the collision loop, a pending note of the
  active list whose depth is past \<open>MISS_Z\<close> gets \<open>missed\<close> set and nothing else changed, a
  miss event is emitted for it, no hit event is, and it leaves the active list, whatever the
  hands do.
\<close>

theorem miss_only_past_threshold:
  "(k < length (notesState s) \<and> \<not> missed (notesState s ! k)
      \<and> missed (notesState (fst (run c fs s)) ! k)
      \<longrightarrow> (\<exists>f\<in>set fs. live f \<and> currentZ_of c (clock f) (notesState s ! k) > MISS_Z c))
   \<and> (wf_scene s \<and> live f \<and> k \<in> set (activeNotes (spawn_loop c (clock f) s))
        \<and> \<not> terminal (notesState s ! k)
        \<and> currentZ_of c (clock f) (notesState s ! k) > MISS_Z c
      \<longrightarrow> notesState (fst (useFrame c f s)) ! k = (notesState s ! k)\<lparr>missed := True\<rparr>
          \<and> NoteMiss k \<in> set (snd (useFrame c f s))
          \<and> (\<forall>a. NoteHit k a \<notin> set (snd (useFrame c f s)))
          \<and> k \<notin> set (activeNotes (fst (useFrame c f s))))"
proof (intro conjI impI)
  assume "k < length (notesState s) \<and> \<not> missed (notesState s ! k)
      \<and> missed (notesState (fst (run c fs s)) ! k)"
  then show "\<exists>f\<in>set fs. live f \<and> currentZ_of c (clock f) (notesState s ! k) > MISS_Z c"
    using run_missed_cause by blast
next
  assume a: "wf_scene s \<and> live f \<and> k \<in> set (activeNotes (spawn_loop c (clock f) s))
        \<and> \<not> terminal (notesState s ! k)
        \<and> currentZ_of c (clock f) (notesState s ! k) > MISS_Z c"
  then have w: "wf_scene s" and l: "live f"
    and m: "k \<in> set (activeNotes (spawn_loop c (clock f) s))" by simp_all
  have d: "decide c (clock f) (handPositionsRef f) (notesState s ! k) = Miss"
    using a by (simp add: decide_Miss_iff)
  have k: "k < length (notesState s)" using w m by (rule active_in_chart)
  show "notesState (fst (useFrame c f s)) ! k = (notesState s ! k)\<lparr>missed := True\<rparr>"
    using d k m by (simp add: live_notes [OF l] nth_settle)
  show "NoteMiss k \<in> set (snd (useFrame c f s))"
    using d m by (simp add: live_NoteMiss [OF l w])
  show "\<forall>a. NoteHit k a \<notin> set (snd (useFrame c f s))"
    using d by (simp add: live_NoteHit [OF l w])
  show "k \<notin> set (activeNotes (fst (useFrame c f s)))"
    using d by (simp add: live_active [OF l w])
qed

theorem miss_only_past_threshold_witness:
  "wf_scene (initial [sample_note 2])
   \<and> live (sample_frame PLAYING 2.12 False (on_note_hands 1.2 1))
   \<and> currentZ_of tight_constants 2.12 (sample_note 2) > MISS_Z tight_constants
   \<and> in_collision_window tight_constants (currentZ_of tight_constants 2.12 (sample_note 2))
   \<and> \<not> soft_gate_fails tight_constants 2.12 (on_note_hands 1.2 1) (sample_note 2)
   \<and> notesState (fst (useFrame tight_constants (sample_frame PLAYING 2.12 False (on_note_hands 1.2 1))
         (initial [sample_note 2]))) ! 0 = (sample_note 2)\<lparr>missed := True\<rparr>
   \<and> snd (useFrame tight_constants (sample_frame PLAYING 2.12 False (on_note_hands 1.2 1))
         (initial [sample_note 2])) = [NoteMiss 0]
   \<and> activeNotes (fst (useFrame tight_constants (sample_frame PLAYING 2.12 False (on_note_hands 1.2 1))
         (initial [sample_note 2]))) = []"
  using miss_only_past_threshold [of 0 "initial [sample_note 2]" tight_constants
      "[sample_frame PLAYING 2.12 False (on_note_hands 1.2 1)]"
      "sample_frame PLAYING 2.12 False (on_note_hands 1.2 1)"]
  by (simp add: model_defs tight_constants_def soft_gate_fails_def)

text \<open>
  C10. The collision loop and the note renderer read \<open>LANE_X_POSITIONS\<close> at \<open>lineIndex\<close> and
  \<open>LAYER_Y_POSITIONS\<close> at \<open>lineLayer\<close> directly. For a note whose two indices lie within the
  tables both positions are defined and equal, with the table entries as coordinates; for a
  note with an index outside its table neither position is defined, and such a note is never
  hit at any time by any hand.
\<close>

theorem position_lookup_needs_in_range:
  "(in_tables c n \<longrightarrow>
      notePos_of c n z = Some \<lparr>vx = LANE_X_POSITIONS c ! nat (lineIndex n),
                               vy = LAYER_Y_POSITIONS c ! nat (lineLayer n), vz = z\<rparr>
      \<and> render_position c n z = notePos_of c n z)
   \<and> (\<not> in_tables c n \<longrightarrow>
        notePos_of c n z = None \<and> render_position c n z = None
        \<and> (\<forall>t h a. decide c t h n \<noteq> Hit a))"
  by (auto simp: in_tables_def notePos_of_def render_position_def table_at_def decide_def
      touching_def Let_def split: option.splits if_splits)

theorem position_lookup_witness:
  "in_tables sample_constants (sample_note 2)
   \<and> notePos_of sample_constants (sample_note 2) 0 = Some \<lparr>vx = -0.4, vy = 0.8, vz = 0\<rparr>
   \<and> render_position sample_constants (sample_note 2) 0 = Some \<lparr>vx = -0.4, vy = 0.8, vz = 0\<rparr>
   \<and> \<not> in_tables sample_constants ((sample_note 2)\<lparr>lineIndex := 4\<rparr>)
   \<and> notePos_of sample_constants ((sample_note 2)\<lparr>lineIndex := 4\<rparr>) 0 = None
   \<and> decide sample_constants 2 (on_note_hands 0 1) ((sample_note 2)\<lparr>lineIndex := 4\<rparr>) = Skip"
  using position_lookup_needs_in_range [of sample_constants "sample_note 2" 0]
    position_lookup_needs_in_range [of sample_constants "(sample_note 2)\<lparr>lineIndex := 4\<rparr>" 0]
  by (simp add: model_defs in_tables_def)

end
